theory Spec2Isabelle
  imports Complex_Main
begin

section \<open>The event bus (dragdropwidgets/utils/events.py)\<close>

subsection \<open>Events and handlers\<close>

text \<open>
  \<^verbatim>\<open>class EventPriority(Enum)\<close>: four levels with the integer values 1 to 4.
\<close>

datatype EventPriority = LOW | NORMAL | HIGH | CRITICAL

fun priority_value :: "EventPriority \<Rightarrow> int" where
  "priority_value LOW = 1"
| "priority_value NORMAL = 2"
| "priority_value HIGH = 3"
| "priority_value CRITICAL = 4"

text \<open>
  \<^verbatim>\<open>class Event\<close>. The type \<open>'a\<close> stands for the opaque Python values (\<open>Any\<close>) that a
  source or a payload entry may hold; the payload dictionary is an association list;
  the timestamp is the reading of the clock handed to the constructor.
\<close>

record 'a Event =
  event_type :: string
  source :: "'a option"
  data :: "(string \<times> 'a) list"
  priority :: EventPriority
  timestamp :: nat
  cancelled :: bool
  handled :: bool

text \<open>\<^verbatim>\<open>Event.__init__\<close>; \<^verbatim>\<open>data or {}\<close> replaces a missing payload by the empty dictionary.\<close>

definition Event_init ::
  "string \<Rightarrow> 'a option \<Rightarrow> (string \<times> 'a) list option \<Rightarrow> EventPriority \<Rightarrow> nat \<Rightarrow> 'a Event" where
  "Event_init name src dat prio now =
     \<lparr> event_type = name,
       source = src,
       data = (case dat of None \<Rightarrow> [] | Some d \<Rightarrow> d),
       priority = prio,
       timestamp = now,
       cancelled = False,
       handled = False \<rparr>"

definition cancel :: "'a Event \<Rightarrow> 'a Event" where
  "cancel ev = ev\<lparr>cancelled := True\<rparr>"

definition mark_handled :: "'a Event \<Rightarrow> 'a Event" where
  "mark_handled ev = ev\<lparr>handled := True\<rparr>"

text \<open>
  A callback is a Python callable that receives the event object. It may mutate the
  event (for instance through \<^verbatim>\<open>cancel\<close> or \<^verbatim>\<open>mark_handled\<close>) and it either returns or
  raises; the value it returns is never looked at by the dispatcher. A callback is
  therefore a function from the event it receives to the way it ends and the event as
  it has left it. A callback that calls the manager again from inside a dispatch
  (to register, remove or emit) is not covered.
\<close>

datatype outcome = Returned | Raised string

type_synonym 'a callback = "'a Event \<Rightarrow> outcome \<times> 'a Event"

text \<open>
  \<^verbatim>\<open>class EventHandler\<close>. \<open>handler_id\<close> is the identity of the wrapper object
  (\<^verbatim>\<open>id(event_handler)\<close>).
\<close>

record 'a EventHandler =
  handler_id :: nat
  callback :: "'a callback"
  hpriority :: EventPriority
  once :: bool
  call_count :: nat
  enabled :: bool

definition EventHandler_init ::
  "nat \<Rightarrow> 'a callback \<Rightarrow> EventPriority \<Rightarrow> bool \<Rightarrow> 'a EventHandler" where
  "EventHandler_init ident cb prio onc =
     \<lparr> handler_id = ident, callback = cb, hpriority = prio, once = onc,
       call_count = 0, enabled = True \<rparr>"

text \<open>
  \<^verbatim>\<open>EventHandler.__call__\<close>: a disabled handler returns at once; an exception of the
  callback leaves before the counter is incremented and before a once-handler is
  disabled.
\<close>

definition handler_call ::
  "'a EventHandler \<Rightarrow> 'a Event \<Rightarrow> outcome \<times> 'a EventHandler \<times> 'a Event" where
  "handler_call h ev =
     (if \<not> enabled h then (Returned, h, ev)
      else case callback h ev of
             (Raised msg, ev') \<Rightarrow> (Raised msg, h, ev')
           | (Returned, ev') \<Rightarrow>
               (Returned,
                h\<lparr>call_count := call_count h + 1,
                  enabled := (if once h then False else enabled h)\<rparr>,
                ev'))"

subsection \<open>The manager\<close>

text \<open>
  What a call of the manager does to the outside: the Qt signal \<^verbatim>\<open>event_triggered\<close>
  carrying the event object, the invocation of a handler (its identity, the event as it
  received it and as it left it) and a line printed for a handler that raised.
\<close>

datatype 'a effect =
    Signal_event_triggered nat
  | Invoke nat "'a Event" "'a Event"
  | Print string

text \<open>
  \<^verbatim>\<open>class EventManager\<close>. Event objects live in \<open>objects\<close> and the history holds
  references to them, since a handler mutates an event after it has been appended to
  the history. \<open>next_ref\<close> is the next fresh object identity.
\<close>

record 'a EventManager =
  event_handlers :: "string \<rightharpoonup> 'a EventHandler list"
  global_handlers :: "'a EventHandler list"
  event_history :: "nat list"
  max_history :: int
  manager_enabled :: bool
  objects :: "nat \<rightharpoonup> 'a Event"
  next_ref :: nat

definition EventManager_init :: "'a EventManager" where
  "EventManager_init =
     \<lparr> event_handlers = Map.empty,
       global_handlers = [],
       event_history = [],
       max_history = 1000,
       manager_enabled = True,
       objects = Map.empty,
       next_ref = 0 \<rparr>"

text \<open>
  \<^verbatim>\<open>list.sort(key=..., reverse=True)\<close>: a stable sort by descending key (elements with
  equal keys keep their relative order).
\<close>

definition sort_reverse :: "('b \<Rightarrow> int) \<Rightarrow> 'b list \<Rightarrow> 'b list" where
  "sort_reverse key xs = sort_key (\<lambda>x. - key x) xs"

datatype py_error = ValueError string | ZeroDivisionError

text \<open>The handler argument of a registration: any Python object, callable or not.\<close>

datatype 'a pyobject = Callable "'a callback" | NotCallable

definition handlers_of :: "'a EventManager \<Rightarrow> string \<Rightarrow> 'a EventHandler list" where
  "handlers_of s name = (case event_handlers s name of None \<Rightarrow> [] | Some hs \<Rightarrow> hs)"

text \<open>
  \<^verbatim>\<open>EventManager.register_event\<close>. The returned handle
  \<^verbatim>\<open>f"{event_name}_{id(event_handler)}"\<close> is the pair of its two parts.
\<close>

definition register_event ::
  "string \<Rightarrow> 'a pyobject \<Rightarrow> EventPriority \<Rightarrow> bool \<Rightarrow> 'a EventManager
   \<Rightarrow> py_error + ((string \<times> nat) \<times> 'a EventManager)" where
  "register_event event_name handler prio onc s =
     (case handler of
        NotCallable \<Rightarrow> Inl (ValueError ''Handler must be callable'')
      | Callable cb \<Rightarrow>
          (let event_handler = EventHandler_init (next_ref s) cb prio onc;
               hs = handlers_of s event_name @ [event_handler];
               hs' = sort_reverse (\<lambda>h. priority_value (hpriority h)) hs
           in Inr ((event_name, handler_id event_handler),
                   s\<lparr>event_handlers := (event_handlers s)(event_name \<mapsto> hs'),
                     next_ref := next_ref s + 1\<rparr>)))"

text \<open>\<^verbatim>\<open>EventManager.register_global_handler\<close>.\<close>

definition register_global_handler ::
  "'a pyobject \<Rightarrow> EventPriority \<Rightarrow> 'a EventManager
   \<Rightarrow> py_error + ((string \<times> nat) \<times> 'a EventManager)" where
  "register_global_handler handler prio s =
     (case handler of
        NotCallable \<Rightarrow> Inl (ValueError ''Handler must be callable'')
      | Callable cb \<Rightarrow>
          (let event_handler = EventHandler_init (next_ref s) cb prio False;
               hs = global_handlers s @ [event_handler];
               hs' = sort_reverse (\<lambda>h. priority_value (hpriority h)) hs
           in Inr ((''global'', handler_id event_handler),
                   s\<lparr>global_handlers := hs', next_ref := next_ref s + 1\<rparr>)))"

text \<open>\<^verbatim>\<open>EventManager._add_to_history\<close>: append, then drop the oldest entry when over capacity.\<close>

definition add_to_history :: "nat \<Rightarrow> 'a EventManager \<Rightarrow> 'a EventManager" where
  "add_to_history r s =
     (let h = event_history s @ [r]
      in s\<lparr>event_history := (if int (length h) > max_history s then tl h else h)\<rparr>)"

text \<open>
  One of the two handler loops of \<^verbatim>\<open>emit_event\<close>:
  \<^verbatim>\<open>for handler in handlers: if not handler.enabled or event.cancelled: break\<close>, then
  the call inside \<^verbatim>\<open>try\<close>, an exception being printed after the prefix \<open>pre\<close>. The
  loop returns the handlers (their counters and flags updated), the event as the
  handlers have left it, and what happened.
\<close>

fun dispatch ::
  "string \<Rightarrow> 'a EventHandler list \<Rightarrow> 'a Event
   \<Rightarrow> 'a EventHandler list \<times> 'a Event \<times> 'a effect list" where
  "dispatch pre [] ev = ([], ev, [])"
| "dispatch pre (h # hs) ev =
     (if \<not> enabled h \<or> cancelled ev then (h # hs, ev, [])
      else case handler_call h ev of
        (out, h', ev') \<Rightarrow>
          (case dispatch pre hs ev' of
             (hs', ev'', fx) \<Rightarrow>
               (h' # hs', ev'',
                Invoke (handler_id h) ev ev'
                  # (case out of Raised msg \<Rightarrow> [Print (pre @ msg)] | Returned \<Rightarrow> [])
                  @ fx)))"

text \<open>
  \<^verbatim>\<open>EventManager.emit_event\<close>. The result is the reference of the new event object, or
  \<open>None\<close> when the manager is disabled. The handlers work on the one event object; what
  they have made of it is written back to the store under its reference. The slots
  that a host connects to \<^verbatim>\<open>event_triggered\<close> are outside the library and are taken to
  leave the event as it is.
\<close>

definition emit_event ::
  "string \<Rightarrow> 'a option \<Rightarrow> (string \<times> 'a) list option \<Rightarrow> EventPriority \<Rightarrow> nat
   \<Rightarrow> 'a EventManager \<Rightarrow> nat option \<times> 'a EventManager \<times> 'a effect list" where
  "emit_event event_name src dat prio now s =
     (if \<not> manager_enabled s then (None, s, [])
      else
        let event = Event_init event_name src dat prio now;
            r = next_ref s;
            s1 = add_to_history r (s\<lparr>objects := (objects s)(r \<mapsto> event), next_ref := r + 1\<rparr>)
        in case dispatch ''Error in global event handler: '' (global_handlers s1) event of
          (gh, ev1, fx1) \<Rightarrow>
            (let s2 = s1\<lparr>global_handlers := gh\<rparr>
             in case (case event_handlers s2 event_name of
                        None \<Rightarrow> (s2, ev1, [])
                      | Some hs \<Rightarrow>
                          if cancelled ev1 then (s2, ev1, [])
                          else (case dispatch (''Error in event handler for '' @ [CHR 0x27] @ event_name @ [CHR 0x27] @ '': '')
                                       hs ev1 of
                                  (hs', ev2, fx2) \<Rightarrow>
                                    (s2\<lparr>event_handlers := (event_handlers s2)(event_name \<mapsto> hs')\<rparr>,
                                     ev2, fx2))) of
                  (s3, ev2, fx2) \<Rightarrow>
                    (Some r,
                     s3\<lparr>objects := (objects s3)(r \<mapsto> ev2)\<rparr>,
                     Signal_event_triggered r # fx1 @ fx2)))"

definition enable_event_manager :: "'a EventManager \<Rightarrow> 'a EventManager" where
  "enable_event_manager s = s\<lparr>manager_enabled := True\<rparr>"

definition disable_event_manager :: "'a EventManager \<Rightarrow> 'a EventManager" where
  "disable_event_manager s = s\<lparr>manager_enabled := False\<rparr>"

text \<open>
  A run of emissions, one after the other, each given by the arguments of
  \<^verbatim>\<open>emit_event\<close> and the clock reading; it collects what the calls returned.
\<close>

type_synonym 'a emission =
  "string \<times> 'a option \<times> (string \<times> 'a) list option \<times> EventPriority \<times> nat"

fun emit_all :: "'a emission list \<Rightarrow> 'a EventManager \<Rightarrow> nat option list \<times> 'a EventManager" where
  "emit_all [] s = ([], s)"
| "emit_all ((name, src, dat, prio, now) # es) s =
     (case emit_event name src dat prio now s of
        (r, s', _) \<Rightarrow> (case emit_all es s' of (rs, s'') \<Rightarrow> (r # rs, s'')))"

text \<open>The identities of the handlers invoked, in the order of their invocation.\<close>

fun invoked :: "'a effect list \<Rightarrow> nat list" where
  "invoked [] = []"
| "invoked (Invoke h _ _ # es) = h # invoked es"
| "invoked (_ # es) = invoked es"

section \<open>Widgets and dragging (core/widget_base.py, core/draggable.py)\<close>

subsection \<open>Qt values\<close>

text \<open>
  \<^verbatim>\<open>QPoint\<close> and \<^verbatim>\<open>QSize\<close> are pairs of integers; \<^verbatim>\<open>QPoint.manhattanLength\<close> is the sum of
  the absolute values of the two coordinates.
\<close>

type_synonym QPoint = "int \<times> int"
type_synonym QSize = "int \<times> int"

definition manhattanLength :: "QPoint \<Rightarrow> int" where
  "manhattanLength p = \<bar>fst p\<bar> + \<bar>snd p\<bar>"

definition point_add :: "QPoint \<Rightarrow> QPoint \<Rightarrow> QPoint" where
  "point_add p q = (fst p + fst q, snd p + snd q)"

definition point_sub :: "QPoint \<Rightarrow> QPoint \<Rightarrow> QPoint" where
  "point_sub p q = (fst p - fst q, snd p - snd q)"

text \<open>
  \<^verbatim>\<open>QRect\<close>, by its left and top coordinates, its width and its height (both at least 0
  for the rectangle of a widget). \<^verbatim>\<open>QRect.contains(r)\<close> holds when neither rectangle is
  null and \<open>r\<close> lies inside, edges included; the right and bottom edges of a rectangle
  are \<open>left + width - 1\<close> and \<open>top + height - 1\<close>.
\<close>

record QRect =
  rect_left :: int
  rect_top :: int
  rect_width :: int
  rect_height :: int

definition rect_isNull :: "QRect \<Rightarrow> bool" where
  "rect_isNull r = (rect_width r = 0 \<and> rect_height r = 0)"

definition rect_contains :: "QRect \<Rightarrow> QRect \<Rightarrow> bool" where
  "rect_contains outer r =
     (\<not> rect_isNull outer \<and> \<not> rect_isNull r
      \<and> rect_left outer \<le> rect_left r
      \<and> rect_left r + rect_width r - 1 \<le> rect_left outer + rect_width outer - 1
      \<and> rect_top outer \<le> rect_top r
      \<and> rect_top r + rect_height r - 1 \<le> rect_top outer + rect_height outer - 1)"

definition moveTopLeft :: "QPoint \<Rightarrow> QRect \<Rightarrow> QRect" where
  "moveTopLeft p r = r\<lparr>rect_left := fst p, rect_top := snd p\<rparr>"

text \<open>
  Python's \<^verbatim>\<open>round\<close> of a quotient: to the nearest integer, a tie going to the even one.
  The quotient \<^verbatim>\<open>a / b\<close> of two integers is a binary64 number in the source; for the
  32-bit coordinates of a \<^verbatim>\<open>QPoint\<close> it lies on the same side of every half-integer as
  the exact quotient, so that \<^verbatim>\<open>round\<close> returns what it returns on the exact quotient.
\<close>

definition py_round :: "real \<Rightarrow> int" where
  "py_round q =
     (let f = \<lfloor>q\<rfloor>; d = q - of_int f
      in if d < 1 / 2 then f
         else if 1 / 2 < d then f + 1
         else if even f then f else f + 1)"

text \<open>Python's \<^verbatim>\<open>int\<close> of a float: truncation towards zero.\<close>

definition py_int :: "real \<Rightarrow> int" where
  "py_int q = (if 0 \<le> q then \<lfloor>q\<rfloor> else \<lceil>q\<rceil>)"

subsection \<open>The widget\<close>

datatype MouseButton = NoButton | LeftButton | RightButton | MiddleButton

text \<open>
  \<^verbatim>\<open>QMouseEvent\<close>: the button that caused the event, the buttons held down while it
  happened, and the position of the pointer in the coordinates of the widget.
\<close>

record QMouseEvent =
  button :: MouseButton
  buttons :: "MouseButton list"
  event_pos :: QPoint

text \<open>The Qt signals that widgets, the drop zone and the layout manager emit.\<close>

datatype signal =
    Widget_selected
  | Widget_moved QPoint
  | Drag_started
  | Drag_finished QPoint
  | Layout_changed

text \<open>
  \<^verbatim>\<open>class WidgetBase(QWidget)\<close> and \<^verbatim>\<open>class DraggableWidget(WidgetBase)\<close> in one record:
  the attributes of the two classes and the Qt properties that the code reads and
  writes (\<open>pos\<close>, \<open>geometry_size\<close> for \<^verbatim>\<open>size()\<close>, \<open>parent\<close>, \<open>visible\<close>).
  \<open>is_DraggableWidget\<close> tells an instance of the subclass, which alone has
  \<^verbatim>\<open>animate_to_position\<close> and \<^verbatim>\<open>snap_to_grid\<close>; every widget class of the library
  (button, label, image and the custom ones) derives from it. \<open>animation\<close> is the
  attribute \<^verbatim>\<open>self.animation\<close>, absent until the first animation: a
  \<^verbatim>\<open>QPropertyAnimation\<close> on \<open>pos\<close>, given by its start value, its end value and its
  duration in milliseconds.
\<close>

record QPropertyAnimation =
  start_value :: QPoint
  end_value :: QPoint
  duration :: int

record Widget =
  widget_id :: string
  is_selected :: bool
  is_draggable :: bool
  is_resizable :: bool
  is_deletable :: bool
  pos :: QPoint
  geometry_size :: QSize
  parent :: "nat option"
  visible :: bool
  is_DraggableWidget :: bool
  drag_start_position :: QPoint
  is_dragging :: bool
  original_position :: QPoint
  drag_threshold :: int
  snap_to_grid :: bool
  grid_size :: int
  animation :: "QPropertyAnimation option"

definition width :: "Widget \<Rightarrow> int" where
  "width w = fst (geometry_size w)"

definition height :: "Widget \<Rightarrow> int" where
  "height w = snd (geometry_size w)"

definition rect :: "Widget \<Rightarrow> QRect" where
  "rect w = \<lparr> rect_left = 0, rect_top = 0, rect_width = width w, rect_height = height w \<rparr>"

text \<open>\<^verbatim>\<open>QWidget.move\<close> and \<^verbatim>\<open>QWidget.mapToParent\<close>.\<close>

definition move :: "QPoint \<Rightarrow> Widget \<Rightarrow> Widget" where
  "move p w = w\<lparr>pos := p\<rparr>"

definition mapToParent :: "Widget \<Rightarrow> QPoint \<Rightarrow> QPoint" where
  "mapToParent w p = point_add (pos w) p"

text \<open>\<^verbatim>\<open>WidgetBase.set_selected\<close>.\<close>

definition set_selected :: "bool \<Rightarrow> Widget \<Rightarrow> Widget \<times> signal list" where
  "set_selected selected w =
     (if is_selected w \<noteq> selected
      then (w\<lparr>is_selected := selected\<rparr>, if selected then [Widget_selected] else [])
      else (w, []))"

text \<open>\<^verbatim>\<open>WidgetBase.mousePressEvent\<close>.\<close>

definition WidgetBase_mousePressEvent :: "QMouseEvent \<Rightarrow> Widget \<Rightarrow> Widget \<times> signal list" where
  "WidgetBase_mousePressEvent event w = set_selected True w"

text \<open>\<^verbatim>\<open>DraggableWidget.mousePressEvent\<close>.\<close>

definition mousePressEvent :: "QMouseEvent \<Rightarrow> Widget \<Rightarrow> Widget \<times> signal list" where
  "mousePressEvent event w =
     WidgetBase_mousePressEvent event
       (if button event = LeftButton \<and> is_draggable w
        then w\<lparr>drag_start_position := event_pos event, original_position := pos w\<rparr>
        else w)"

text \<open>
  \<^verbatim>\<open>DraggableWidget._snap_to_grid\<close>; the division raises for a grid size of 0.
\<close>

definition snap_position :: "int \<Rightarrow> QPoint \<Rightarrow> py_error + QPoint" where
  "snap_position g position =
     (if g = 0 then Inl ZeroDivisionError
      else Inr (py_round (of_int (fst position) / of_int g) * g,
                py_round (of_int (snd position) / of_int g) * g))"

text \<open>
  \<^verbatim>\<open>DraggableWidget.mouseMoveEvent\<close>. The result is the widget, the signals emitted and
  the exception that ended the call, if any (the attributes written before the
  exception stay written).
\<close>

definition mouseMoveEvent ::
  "QMouseEvent \<Rightarrow> Widget \<Rightarrow> Widget \<times> signal list \<times> py_error option" where
  "mouseMoveEvent event w =
     (if LeftButton \<notin> set (buttons event) \<or> \<not> is_draggable w then (w, [], None)
      else
        let distance = manhattanLength (point_sub (event_pos event) (drag_start_position w))
        in if distance < drag_threshold w then (w, [], None)
           else
             let started = (if \<not> is_dragging w then [Drag_started] else []);
                 w1 = (if \<not> is_dragging w then w\<lparr>is_dragging := True\<rparr> else w);
                 new_position =
                   mapToParent w1 (point_sub (event_pos event) (drag_start_position w1))
             in if snap_to_grid w1
                then (case snap_position (grid_size w1) new_position of
                        Inl err \<Rightarrow> (w1, started, Some err)
                      | Inr snapped \<Rightarrow>
                          (move snapped w1, started @ [Widget_moved snapped], None))
                else (move new_position w1, started @ [Widget_moved new_position], None))"

text \<open>
  \<^verbatim>\<open>DraggableWidget._is_valid_position\<close>; \<open>parent_rect\<close> is \<^verbatim>\<open>self.parent().rect()\<close>, or
  \<open>None\<close> for a widget without a parent.
\<close>

definition is_valid_position :: "QRect option \<Rightarrow> Widget \<Rightarrow> QPoint \<Rightarrow> bool" where
  "is_valid_position parent_rect w position =
     (case parent_rect of
        None \<Rightarrow> True
      | Some prect \<Rightarrow> rect_contains prect (moveTopLeft position (rect w)))"

text \<open>\<^verbatim>\<open>DraggableWidget.mouseReleaseEvent\<close>.\<close>

definition mouseReleaseEvent ::
  "QRect option \<Rightarrow> QMouseEvent \<Rightarrow> Widget \<Rightarrow> Widget \<times> signal list" where
  "mouseReleaseEvent parent_rect event w =
     (if is_dragging w \<and> button event = LeftButton
      then
        let w1 = w\<lparr>is_dragging := False\<rparr>;
            final_position = pos w1
        in if is_valid_position parent_rect w1 final_position
           then (w1, [Drag_finished final_position])
           else (move (original_position w1) w1, [])
      else (w, []))"

text \<open>\<^verbatim>\<open>DraggableWidget.set_snap_to_grid\<close>.\<close>

definition set_snap_to_grid :: "bool \<Rightarrow> int \<Rightarrow> Widget \<Rightarrow> Widget" where
  "set_snap_to_grid enable g w = w\<lparr>snap_to_grid := enable, grid_size := g\<rparr>"

text \<open>
  \<^verbatim>\<open>DraggableWidget.animate_to_position\<close>: it creates the animation from the present
  position to the target and starts it. The animation moves the widget afterwards, as
  the event loop of Qt runs; when the call returns the position is the old one.
\<close>

definition animate_to_position :: "QPoint \<Rightarrow> int \<Rightarrow> Widget \<Rightarrow> Widget" where
  "animate_to_position target_position dur w =
     w\<lparr>animation :=
         Some \<lparr> start_value = pos w, end_value = target_position, duration = dur \<rparr>\<rparr>"

text \<open>
  A run of pointer-move samples delivered to one widget, with all the signals emitted
  and all the exceptions raised on the way.
\<close>

fun mouseMoves :: "QMouseEvent list \<Rightarrow> Widget \<Rightarrow> Widget \<times> signal list \<times> py_error list" where
  "mouseMoves [] w = (w, [], [])"
| "mouseMoves (event # events) w =
     (case mouseMoveEvent event w of
        (w1, sigs1, err) \<Rightarrow>
          (case mouseMoves events w1 of
             (w2, sigs2, errs) \<Rightarrow>
               (w2, sigs1 @ sigs2, (case err of None \<Rightarrow> [] | Some e \<Rightarrow> [e]) @ errs)))"

text \<open>
  A whole gesture: a press, a run of moves and a release. The result is the widget at
  the end with the signals of the three phases.
\<close>

definition gesture ::
  "QRect option \<Rightarrow> QMouseEvent \<Rightarrow> QMouseEvent list \<Rightarrow> QMouseEvent \<Rightarrow> Widget
   \<Rightarrow> Widget \<times> signal list \<times> signal list \<times> signal list" where
  "gesture parent_rect press moves release w =
     (case mousePressEvent press w of
        (w1, sigs1) \<Rightarrow>
          (case mouseMoves moves w1 of
             (w2, sigs2, errs) \<Rightarrow>
               (case mouseReleaseEvent parent_rect release w2 of
                  (w3, sigs3) \<Rightarrow> (w3, sigs1, sigs2, sigs3))))"

section \<open>The drop zone (core/drop_zone.py)\<close>

text \<open>
  Widgets are objects: the zone and the layout manager hold references to them, and
  \<^verbatim>\<open>widget not in self.widgets\<close> compares identities. The heap gives the object behind
  each reference.
\<close>

type_synonym heap = "nat \<Rightarrow> Widget"

text \<open>
  \<^verbatim>\<open>class DropZone(QFrame)\<close>: its attributes, its own identity (the value that
  \<^verbatim>\<open>setParent(self)\<close> stores in a widget) and its size.
\<close>

record DropZone =
  zone_ref :: nat
  widgets :: "nat list"
  selected_widgets :: "nat list"
  show_grid :: bool
  zone_grid_size :: int
  is_drop_target :: bool
  layout_mode :: string
  zone_size :: QSize

definition DropZone_init :: "nat \<Rightarrow> QSize \<Rightarrow> DropZone" where
  "DropZone_init self sz =
     \<lparr> zone_ref = self, widgets = [], selected_widgets = [], show_grid = True,
       zone_grid_size = 20, is_drop_target = False, layout_mode = ''free'',
       zone_size = sz \<rparr>"

text \<open>
  The truth value of an optional \<^verbatim>\<open>QPoint\<close> in \<^verbatim>\<open>if position:\<close>: false for \<open>None\<close> and
  for the null point \<open>(0, 0)\<close>.
\<close>

definition position_given :: "QPoint option \<Rightarrow> bool" where
  "position_given position = (case position of None \<Rightarrow> False | Some p \<Rightarrow> p \<noteq> (0, 0))"

text \<open>
  \<^verbatim>\<open>DropZone.add_widget\<close>. The two \<^verbatim>\<open>connect\<close> calls attach slots of the zone to signals
  of the widget and leave every attribute as it is.
\<close>

definition add_widget ::
  "nat \<Rightarrow> QPoint option \<Rightarrow> DropZone \<times> heap \<Rightarrow> (DropZone \<times> heap) \<times> signal list" where
  "add_widget widget position zh =
     (case zh of (z, h) \<Rightarrow>
        if widget \<notin> set (widgets z) then
          let z1 = z\<lparr>widgets := widgets z @ [widget]\<rparr>;
              h1 = h(widget := (h widget)\<lparr>parent := Some (zone_ref z1)\<rparr>);
              h2 = (if position_given position
                    then h1(widget := move (the position) (h1 widget))
                    else h1(widget := move (int (length (widgets z1)) * 50,
                                            int (length (widgets z1)) * 30) (h1 widget)));
              h3 = h2(widget := (h2 widget)\<lparr>visible := True\<rparr>)
          in ((z1, h3), [Layout_changed])
        else ((z, h), []))"

text \<open>\<^verbatim>\<open>DropZone.set_grid_visible\<close>; \<^verbatim>\<open>self.update()\<close> asks Qt for a repaint.\<close>

definition set_grid_visible :: "bool \<Rightarrow> DropZone \<times> heap \<Rightarrow> DropZone \<times> heap" where
  "set_grid_visible vis zh = (case zh of (z, h) \<Rightarrow> (z\<lparr>show_grid := vis\<rparr>, h))"

text \<open>
  The grid size of a zone is changed by the assignment \<^verbatim>\<open>drop_zone.grid_size = g\<close>
  (\<^verbatim>\<open>load_layout_data\<close> and the examples); there is no setter method.
\<close>

definition assign_grid_size :: "int \<Rightarrow> DropZone \<times> heap \<Rightarrow> DropZone \<times> heap" where
  "assign_grid_size g zh = (case zh of (z, h) \<Rightarrow> (z\<lparr>zone_grid_size := g\<rparr>, h))"

section \<open>The layout manager (core/layout_manager.py)\<close>

text \<open>
  The placement that every arrangement of the layout manager ends with:
  \<^verbatim>\<open>if hasattr(widget, 'animate_to_position'): widget.animate_to_position(new_pos)\<close>,
  \<^verbatim>\<open>else: widget.move(new_pos)\<close>. An instance of \<^verbatim>\<open>DraggableWidget\<close> has the method
  and is animated for the default 300 milliseconds; another widget is moved at once.
\<close>

definition place :: "nat \<Rightarrow> QPoint \<Rightarrow> heap \<Rightarrow> heap" where
  "place r new_pos h =
     (if is_DraggableWidget (h r)
      then h(r := animate_to_position new_pos 300 (h r))
      else h(r := move new_pos (h r)))"






section \<open>Auxiliary notions for the proofs\<close>

text \<open>
  A list of effects in which no handler is invoked after one that has left the event
  cancelled, and a list in which some handler has left it cancelled.
\<close>

fun no_invoke_after_cancel :: "'a effect list \<Rightarrow> bool" where
  "no_invoke_after_cancel [] = True"
| "no_invoke_after_cancel (Invoke h e e' # es) =
     (if cancelled e' then invoked es = [] else no_invoke_after_cancel es)"
| "no_invoke_after_cancel (_ # es) = no_invoke_after_cancel es"

definition cancels :: "'a effect list \<Rightarrow> bool" where
  "cancels es = (\<exists>h e e'. Invoke h e e' \<in> set es \<and> cancelled e')"



definition after_calls :: "'a EventHandler list \<Rightarrow> 'a Event \<Rightarrow> 'a Event" where
  "after_calls hs e = fold (\<lambda>h e. snd (callback h e)) hs e"

text \<open>
  Rounding the quotient of two integers to the nearest integer, ties to even, in
  integer arithmetic: what \<open>py_round\<close> computes on \<open>a / b\<close>.
\<close>

definition round_div :: "int \<Rightarrow> int \<Rightarrow> int" where
  "round_div a b =
     (if 2 * \<bar>a mod b\<bar> < \<bar>b\<bar> then a div b
      else if \<bar>b\<bar> < 2 * \<bar>a mod b\<bar> then a div b + 1
      else if even (a div b) then a div b else a div b + 1)"

text \<open>
  The running coordinates of the positioning loop as a list: the widget \<open>i\<close> is placed
  at the truncation of the \<open>i\<close>-th entry, the list of widths being that of the sorted
  widgets. \<open>exacts\<close> is the same run in exact arithmetic with the exact spacing.
  \<open>start_x\<close> is the coordinate that the loop computes for its next widget.
\<close>

fun currents :: "(real \<Rightarrow> real) \<Rightarrow> real \<Rightarrow> real \<Rightarrow> int list \<Rightarrow> real list" where
  "currents fl sp c [] = []"
| "currents fl sp c (w # wl) = c # currents fl sp (fl (c + fl (of_int w + sp))) wl"

fun exacts :: "real \<Rightarrow> real \<Rightarrow> int list \<Rightarrow> real list" where
  "exacts s e [] = []"
| "exacts s e (w # wl) = e # exacts s (e + of_int w + s) wl"



section \<open>Scenarios\<close>

text \<open>
  Two callbacks: one that returns and leaves the event alone, one that cancels the
  event and then raises.
\<close>

definition cb_plain :: "unit callback" where
  "cb_plain e = (Returned, e)"

definition cb_cancel_raise :: "unit callback" where
  "cb_cancel_raise e = (Raised ''boom'', cancel e)"

text \<open>
  A fresh manager in which a handler of priority NORMAL and then one of priority HIGH
  are registered for the type \<open>t\<close>, and a manager with a cancelling HIGH handler and a
  plain NORMAL handler.
\<close>

definition registered ::
  "(unit callback \<times> EventPriority) list \<Rightarrow> unit EventManager \<Rightarrow> unit EventManager" where
  "registered regs s0 =
     fold (\<lambda>(cb, p) s. case register_event ''t'' (Callable cb) p False s of
                          Inr (_, s') \<Rightarrow> s' | Inl _ \<Rightarrow> s) regs s0"

definition after_normal_high :: "unit EventManager" where
  "after_normal_high = registered [(cb_plain, NORMAL), (cb_plain, HIGH)] EventManager_init"

definition after_cancelling :: "unit EventManager" where
  "after_cancelling = registered [(cb_plain, NORMAL), (cb_cancel_raise, HIGH)] EventManager_init"









definition widget_moved_emission :: "unit emission" where
  "widget_moved_emission = (''widget_moved'', None, None, NORMAL, 0)"

text \<open>
  The button of the specification's scenario: identifier \<open>btn1\<close>, at (100, 100), of
  size 80 by 30, snapping to a grid of 20, in a zone of 400 by 300. The pointer events
  of a drag with the left button.
\<close>

definition btn1 :: Widget where
  "btn1 = \<lparr> widget_id = ''btn1'', is_selected = False, is_draggable = True,
            is_resizable = True, is_deletable = True, pos = (100, 100),
            geometry_size = (80, 30), parent = Some 0, visible = True,
            is_DraggableWidget = True, drag_start_position = (0, 0), is_dragging = False,
            original_position = (0, 0), drag_threshold = 5, snap_to_grid = True,
            grid_size = 20, animation = None \<rparr>"

definition zone_rect :: QRect where
  "zone_rect = \<lparr> rect_left = 0, rect_top = 0, rect_width = 400, rect_height = 300 \<rparr>"

definition press_at :: "QPoint \<Rightarrow> QMouseEvent" where
  "press_at p = \<lparr> button = LeftButton, buttons = [LeftButton], event_pos = p \<rparr>"

definition move_at :: "QPoint \<Rightarrow> QMouseEvent" where
  "move_at p = \<lparr> button = NoButton, buttons = [LeftButton], event_pos = p \<rparr>"

definition release_at :: "QPoint \<Rightarrow> QMouseEvent" where
  "release_at p = \<lparr> button = LeftButton, buttons = [], event_pos = p \<rparr>"



text \<open>
  A fresh zone of 400 by 300 (its own identity is 0) over a heap of buttons, and the
  zone after the widget 1 has been added without a position.
\<close>

definition empty_zone :: "DropZone \<times> heap" where
  "empty_zone = (DropZone_init 0 (400, 300), \<lambda>r. btn1)"

definition zone_with_one :: "DropZone \<times> heap" where
  "zone_with_one = fst (add_widget 1 None empty_zone)"







section \<open>Properties of the event bus\<close>

subsection \<open>What one emission does\<close>

lemma emit_event_fields:
  assumes "manager_enabled s"
  shows "event_history (fst (snd (emit_event name src dat prio now s))) =
           (let h = event_history s @ [next_ref s]
            in if int (length h) > max_history s then tl h else h)"
    and "next_ref (fst (snd (emit_event name src dat prio now s))) = next_ref s + 1"
    and "max_history (fst (snd (emit_event name src dat prio now s))) = max_history s"
    and "manager_enabled (fst (snd (emit_event name src dat prio now s)))"
    and "fst (emit_event name src dat prio now s) = Some (next_ref s)"
  using assms
  by (simp_all add: emit_event_def add_to_history_def Let_def split: prod.splits option.splits)

lemma emit_event_effects:
  assumes "manager_enabled s"
  shows "snd (snd (emit_event name src dat prio now s)) =
     Signal_event_triggered (next_ref s)
       # snd (snd (dispatch ''Error in global event handler: '' (global_handlers s)
                     (Event_init name src dat prio now)))
       @ (let ev1 = fst (snd (dispatch ''Error in global event handler: '' (global_handlers s)
                     (Event_init name src dat prio now)))
          in if cancelled ev1 then []
             else snd (snd (dispatch (''Error in event handler for '' @ [CHR 0x27] @ name @ [CHR 0x27] @ '': '')
                                (handlers_of s name) ev1)))"
  using assms
  by (simp add: emit_event_def add_to_history_def handlers_of_def Let_def
      split: prod.splits option.splits)

lemma invoked_append: "invoked (xs @ ys) = invoked xs @ invoked ys"
  by (induction xs rule: invoked.induct) auto

lemma dispatch_cancelled: "cancelled ev \<Longrightarrow> dispatch pre hs ev = (hs, ev, [])"
  by (cases hs) auto

lemma invoked_out: "invoked (case out of Raised msg \<Rightarrow> [Print (pre @ msg)] | Returned \<Rightarrow> []) = []"
  by (cases out) auto

subsection \<open>The history\<close>

lemma emit_all_history:
  assumes "manager_enabled s" "max_history s = 1000" "length (event_history s) \<le> 1000"
  shows "event_history (snd (emit_all es s)) =
           drop (length (event_history s) + length es - 1000)
                (event_history s @ [next_ref s ..< next_ref s + length es])
         \<and> fst (emit_all es s) = map Some [next_ref s ..< next_ref s + length es]"
  using assms
proof (induction es arbitrary: s)
  case Nil
  then show ?case by simp
next
  case (Cons e es)
  obtain name src dat prio now where e: "e = (name, src, dat, prio, now)"
    by (cases e) auto
  define s1 where "s1 = fst (snd (emit_event name src dat prio now s))"
  have h1: "event_history s1 = drop (length (event_history s) + 1 - 1000) (event_history s @ [next_ref s])"
  proof (cases "length (event_history s) = 1000")
    case True
    then have "length (event_history s) + 1 - 1000 = 1" and "event_history s \<noteq> []"
      by auto
    then show ?thesis
      using Cons.prems True unfolding s1_def
      by (simp add: emit_event_fields(1) Let_def drop_Suc)
  next
    case False
    then show ?thesis
      using Cons.prems unfolding s1_def
      by (simp add: emit_event_fields(1) Let_def)
  qed
  have n1: "next_ref s1 = next_ref s + 1" and m1: "max_history s1 = 1000" and e1: "manager_enabled s1"
    and r1: "fst (emit_event name src dat prio now s) = Some (next_ref s)"
    using Cons.prems unfolding s1_def by (simp_all add: emit_event_fields)
  have l1: "length (event_history s1) \<le> 1000"
    using Cons.prems h1 by simp
  note IH = Cons.IH [OF e1 m1 l1]
  have step: "emit_all (e # es) s = (fst (emit_event name src dat prio now s) # fst (emit_all es s1), snd (emit_all es s1))"
    unfolding e s1_def by (simp split: prod.splits)
  have up: "[next_ref s ..< next_ref s + length (e # es)] = next_ref s # [next_ref s1 ..< next_ref s1 + length es]"
    by (simp add: n1 upt_rec)
  let ?h = "event_history s" and ?rest = "[next_ref s1 ..< next_ref s1 + length es]"
  let ?b = "length ?h + 1 - 1000"
  have app: "event_history s1 @ ?rest = drop ?b (?h @ next_ref s # ?rest)"
    using h1 Cons.prems(3) by simp
  have len: "length (event_history s1) + length es - 1000 + ?b = length ?h + length (e # es) - 1000"
    using h1 Cons.prems(3) by (cases "length ?h = 1000") auto
  have "event_history (snd (emit_all es s1)) = drop (length ?h + length (e # es) - 1000) (?h @ next_ref s # ?rest)"
    using IH app len by (simp only: drop_drop)
  moreover have "fst (emit_all es s1) = map Some ?rest"
    using IH by simp
  ultimately show ?case
    unfolding step up using r1 by simp
qed

text \<open>
  Claim C3. With the capacity of 1000 that the constructor sets, a run of \<open>N\<close> emissions
  on an enabled manager whose history holds at most 1000 entries leaves in the history
  the newest entries of the old history followed by the events just emitted, in the
  order of emission, cut from the old end to 1000 entries: its length is the smaller of
  1000 and the old length plus \<open>N\<close>. The events emitted are the \<open>N\<close> fresh objects
  allocated one after the other. From an empty history, the history after \<open>N\<close>
  emissions is the last \<open>min N 1000\<close> of them.
\<close>

theorem history_bounded_oldest_first:
  assumes "manager_enabled s" and "max_history s = 1000"
    and "length (event_history s) \<le> 1000"
  shows "event_history (snd (emit_all es s)) =
           drop (length (event_history s) + length es - 1000)
                (event_history s @ map the (fst (emit_all es s)))
       \<and> length (event_history (snd (emit_all es s)))
           = min (length (event_history s) + length es) 1000
       \<and> fst (emit_all es s) = map Some [next_ref s ..< next_ref s + length es]"
proof -
  note h = emit_all_history [OF assms, of es]
  have m: "map the (fst (emit_all es s)) = [next_ref s ..< next_ref s + length es]"
    using h by (simp add: comp_def)
  have "event_history (snd (emit_all es s)) =
           drop (length (event_history s) + length es - 1000)
                (event_history s @ map the (fst (emit_all es s)))"
    using h m by simp
  moreover have "length (event_history (snd (emit_all es s)))
           = min (length (event_history s) + length es) 1000"
    using h assms(3) by simp
  ultimately show ?thesis using h by simp
qed

theorem history_bounded_oldest_first_witness:
  "event_history (snd (emit_all (replicate 1200 widget_moved_emission) EventManager_init))
     = [200 ..< 1200]
   \<and> length (event_history
               (snd (emit_all (replicate 1200 widget_moved_emission) EventManager_init)))
     = 1000"
proof -
  have "manager_enabled (EventManager_init :: unit EventManager)"
    and "max_history (EventManager_init :: unit EventManager) = 1000"
    and "length (event_history (EventManager_init :: unit EventManager)) \<le> 1000"
    by (simp_all add: EventManager_init_def)
  from history_bounded_oldest_first [OF this, of "replicate 1200 widget_moved_emission"]
  show ?thesis
    by (simp add: EventManager_init_def comp_def)
qed

subsection \<open>A disabled manager\<close>

text \<open>
  Claim C10. On a disabled manager \<^verbatim>\<open>emit_event\<close> returns \<open>None\<close>, leaves the whole state
  as it is (nothing is appended to the history) and has no effect (no signal, no
  handler invoked); \<^verbatim>\<open>disable_event_manager\<close> disables. Disabling and enabling an
  enabled manager gives the manager back, on which an emission returns the new event
  object, appends it to the history (the capacity being at least 1) and emits the signal.
\<close>

theorem disabled_manager_emits_nothing:
  "(\<not> manager_enabled s \<longrightarrow> emit_event name src dat prio now s = (None, s, []))
   \<and> \<not> manager_enabled (disable_event_manager s)
   \<and> manager_enabled (enable_event_manager s)
   \<and> (manager_enabled s \<longrightarrow>
        enable_event_manager (disable_event_manager s) = s
        \<and> fst (emit_event name src dat prio now s) = Some (next_ref s)
        \<and> (1 \<le> max_history s \<longrightarrow>
             last (event_history (fst (snd (emit_event name src dat prio now s)))) = next_ref s)
        \<and> hd (snd (snd (emit_event name src dat prio now s)))
            = Signal_event_triggered (next_ref s))"
proof (intro conjI impI)
  assume "\<not> manager_enabled s"
  then show "emit_event name src dat prio now s = (None, s, [])"
    by (simp add: emit_event_def)
next
  show "\<not> manager_enabled (disable_event_manager s)"
    by (simp add: disable_event_manager_def)
next
  show "manager_enabled (enable_event_manager s)"
    by (simp add: enable_event_manager_def)
next
  assume "manager_enabled s"
  then show "enable_event_manager (disable_event_manager s) = s"
    by (simp add: enable_event_manager_def disable_event_manager_def)
next
  assume "manager_enabled s"
  then show "fst (emit_event name src dat prio now s) = Some (next_ref s)"
    by (rule emit_event_fields(5))
next
  assume e: "manager_enabled s" and "1 \<le> max_history s"
  then show "last (event_history (fst (snd (emit_event name src dat prio now s)))) = next_ref s"
    by (cases "event_history s") (auto simp: emit_event_fields(1) [OF e] Let_def)
next
  assume "manager_enabled s"
  then show "hd (snd (snd (emit_event name src dat prio now s)))
               = Signal_event_triggered (next_ref s)"
    by (simp add: emit_event_effects)
qed

subsection \<open>Cancellation\<close>

lemma dispatch_no_invoke_after_cancel:
  "no_invoke_after_cancel (snd (snd (dispatch pre hs ev)))"
proof (induction hs arbitrary: ev)
  case Nil
  then show ?case by simp
next
  case (Cons h hs)
  show ?case
  proof (cases "\<not> enabled h \<or> cancelled ev")
    case True
    then show ?thesis by auto
  next
    case False
    obtain out h' ev' where hc: "handler_call h ev = (out, h', ev')"
      by (cases "handler_call h ev") auto
    obtain hs' ev'' fx where d: "dispatch pre hs ev' = (hs', ev'', fx)"
      by (cases "dispatch pre hs ev'") auto
    have fx: "no_invoke_after_cancel fx" using Cons.IH [of ev'] d by simp
    have c: "cancelled ev' \<Longrightarrow> fx = []" using d dispatch_cancelled [of ev' pre hs] by simp
    show ?thesis
      using False hc d fx c by (cases out) auto
  qed
qed

lemma dispatch_cancels_final:
  "cancels (snd (snd (dispatch pre hs ev))) \<Longrightarrow> cancelled (fst (snd (dispatch pre hs ev)))"
proof (induction hs arbitrary: ev)
  case Nil
  then show ?case by (simp add: cancels_def)
next
  case (Cons h hs)
  show ?case
  proof (cases "\<not> enabled h \<or> cancelled ev")
    case True
    then show ?thesis using Cons.prems by (auto simp: cancels_def)
  next
    case False
    obtain out h' ev' where hc: "handler_call h ev = (out, h', ev')"
      by (cases "handler_call h ev") auto
    obtain hs' ev'' fx where d: "dispatch pre hs ev' = (hs', ev'', fx)"
      by (cases "dispatch pre hs ev'") auto
    have c: "cancelled ev' \<Longrightarrow> ev'' = ev'" using d dispatch_cancelled [of ev' pre hs] by simp
    have "cancelled ev' \<or> cancels fx"
      using Cons.prems False hc d by (cases out) (auto simp: cancels_def)
    then show ?thesis
      using Cons.IH [of ev'] False hc d c by auto
  qed
qed

lemma no_invoke_after_cancel_append:
  "no_invoke_after_cancel xs \<Longrightarrow> no_invoke_after_cancel ys \<Longrightarrow> (cancels xs \<Longrightarrow> invoked ys = [])
   \<Longrightarrow> no_invoke_after_cancel (xs @ ys)"
proof (induction xs)
  case Nil
  then show ?case by simp
next
  case (Cons x xs)
  have later: "cancels xs \<Longrightarrow> cancels (x # xs)"
    by (auto simp: cancels_def)
  show ?case
  proof (cases x)
    case (Signal_event_triggered r)
    then show ?thesis using Cons later by auto
  next
    case (Print m)
    then show ?thesis using Cons later by auto
  next
    case (Invoke h e e')
    show ?thesis
    proof (cases "cancelled e'")
      case True
      then have "cancels (x # xs)" using Invoke by (auto simp: cancels_def)
      then show ?thesis using Cons Invoke True by (simp add: invoked_append)
    next
      case False
      then show ?thesis using Cons Invoke later by auto
    qed
  qed
qed

lemma no_invoke_after_cancel_split:
  "no_invoke_after_cancel fx \<Longrightarrow> fx = xs @ Invoke h e e' # ys \<Longrightarrow> cancelled e' \<Longrightarrow> invoked ys = []"
proof (induction xs arbitrary: fx)
  case Nil
  then show ?case by simp
next
  case (Cons x xs)
  then have "no_invoke_after_cancel (xs @ Invoke h e e' # ys)"
    by (cases x) (auto simp: invoked_append split: if_splits)
  then show ?case using Cons by blast
qed

lemma emit_event_no_invoke_after_cancel:
  "no_invoke_after_cancel (snd (snd (emit_event name src dat prio now s)))"
proof (cases "manager_enabled s")
  case False
  then show ?thesis by (simp add: emit_event_def)
next
  case True
  let ?d1 = "dispatch ''Error in global event handler: '' (global_handlers s)
                     (Event_init name src dat prio now)"
  let ?fx2 = "if cancelled (fst (snd ?d1)) then []
             else snd (snd (dispatch (''Error in event handler for '' @ [CHR 0x27] @ name @ [CHR 0x27] @ '': '')
                                (handlers_of s name) (fst (snd ?d1))))"
  have g: "no_invoke_after_cancel (snd (snd ?d1))"
    by (rule dispatch_no_invoke_after_cancel)
  have c: "cancels (snd (snd ?d1)) \<Longrightarrow> invoked ?fx2 = []"
    using dispatch_cancels_final [of "''Error in global event handler: ''" "global_handlers s"
        "Event_init name src dat prio now"] by simp
  have sp: "no_invoke_after_cancel ?fx2"
    using dispatch_no_invoke_after_cancel
      [of "''Error in event handler for '' @ [CHR 0x27] @ name @ [CHR 0x27] @ '': ''" "handlers_of s name" "fst (snd ?d1)"]
    by simp
  have "no_invoke_after_cancel (snd (snd ?d1) @ ?fx2)"
    using g sp c by (rule no_invoke_after_cancel_append)
  then show ?thesis
    unfolding emit_event_effects [OF True] Let_def by simp
qed

text \<open>
  Claim C2. In the effects of one emission, after the invocation of a handler that
  has left the event cancelled, no handler is invoked any more: neither a later global
  handler nor any handler registered for the type of the event.
\<close>

theorem cancel_stops_dispatch:
  assumes "emit_event name src dat prio now s = (r, s', fx)"
    and "fx = before @ Invoke h e e' # after"
    and "cancelled e'"
  shows "invoked after = []"
  using emit_event_no_invoke_after_cancel [of name src dat prio now s] assms
    no_invoke_after_cancel_split [of fx before h e e' after]
  by simp

subsection \<open>Priorities\<close>














lemma after_calls_simps [simp]:
  "after_calls [] e = e"
  "after_calls (h # hs) e = after_calls hs (snd (callback h e))"
  by (simp_all add: after_calls_def)









subsection \<open>The scenarios evaluated\<close>

lemma sort_reverse_simps:
  "sort_reverse key [] = []"
  "sort_reverse key (x # xs) = insort_key (\<lambda>x. - key x) x (sort_reverse key xs)"
  by (simp_all add: sort_reverse_def)

lemmas scenario_defs = registered_def register_event_def EventManager_init_def
  EventHandler_init_def handlers_of_def sort_reverse_simps Let_def

lemmas emit_defs = emit_event_def add_to_history_def handler_call_def Event_init_def
  EventHandler_init_def cancel_def Let_def

lemma after_normal_high_eval:
  "after_normal_high =
     \<lparr> event_handlers = [''t'' \<mapsto> [EventHandler_init 1 cb_plain HIGH False,
                                   EventHandler_init 0 cb_plain NORMAL False]],
       global_handlers = [], event_history = [], max_history = 1000,
       manager_enabled = True, objects = Map.empty, next_ref = 2 \<rparr>"
  by (simp add: after_normal_high_def scenario_defs)

lemma after_cancelling_eval:
  "after_cancelling =
     \<lparr> event_handlers = [''t'' \<mapsto> [EventHandler_init 1 cb_cancel_raise HIGH False,
                                   EventHandler_init 0 cb_plain NORMAL False]],
       global_handlers = [], event_history = [], max_history = 1000,
       manager_enabled = True, objects = Map.empty, next_ref = 2 \<rparr>"
  by (simp add: after_cancelling_def scenario_defs)










text \<open>
  The HIGH handler cancels the event and raises: the line for the exception is printed,
  and the NORMAL handler (object 0), though registered and enabled, is not invoked.
\<close>

theorem cancel_stops_dispatch_witness:
  "snd (snd (emit_event ''t'' None None NORMAL 0 after_cancelling)) =
     [Signal_event_triggered 2,
      Invoke 1 (Event_init ''t'' None None NORMAL 0) (cancel (Event_init ''t'' None None NORMAL 0)),
      Print ''Error in event handler for 't': boom'']
   \<and> invoked [Print ''Error in event handler for 't': boom'' :: unit effect] = []
   \<and> map handler_id (handlers_of after_cancelling ''t'') = [1, 0]"
proof -
  let ?e = "Event_init ''t'' (None :: unit option) None NORMAL 0"
  let ?fx = "[Signal_event_triggered 2, Invoke 1 ?e (cancel ?e),
              Print ''Error in event handler for 't': boom'']"
  have fx: "snd (snd (emit_event ''t'' None None NORMAL 0 after_cancelling)) = ?fx"
    by (simp add: after_cancelling_eval emit_defs cb_plain_def cb_cancel_raise_def)
  obtain r s2 where e: "emit_event ''t'' None None NORMAL 0 after_cancelling = (r, s2, ?fx)"
    using fx by (cases "emit_event ''t'' (None :: unit option) None NORMAL 0 after_cancelling") auto
  have split: "?fx = [Signal_event_triggered 2] @ Invoke 1 ?e (cancel ?e)
                       # [Print ''Error in event handler for 't': boom'']"
    by simp
  have c: "cancelled (cancel ?e)" by (simp add: cancel_def)
  have "invoked [Print ''Error in event handler for 't': boom'' :: unit effect] = []"
    by (rule cancel_stops_dispatch [OF e split c])
  moreover have "map handler_id (handlers_of after_cancelling ''t'') = [1, 0]"
    by (simp add: after_cancelling_eval handlers_of_def EventHandler_init_def)
  ultimately show ?thesis using fx by simp
qed

text \<open>
  Disabled, the manager with the two handlers returns \<open>None\<close> and does nothing; enabled
  again it invokes both.
\<close>

theorem disabled_manager_emits_nothing_witness:
  "emit_event ''t'' None None NORMAL 0 (disable_event_manager after_normal_high)
     = (None, disable_event_manager after_normal_high, [])
   \<and> invoked (snd (snd (emit_event ''t'' None None NORMAL 0
                 (enable_event_manager (disable_event_manager after_normal_high))))) = [1, 0]
   \<and> fst (emit_event ''t'' None None NORMAL 0
            (enable_event_manager (disable_event_manager after_normal_high))) = Some 2"
proof -
  note t1 = disabled_manager_emits_nothing
    [of "disable_event_manager after_normal_high" "''t''" None None NORMAL 0]
  note t2 = disabled_manager_emits_nothing [of after_normal_high "''t''" None None NORMAL 0]
  have en: "manager_enabled after_normal_high" by (simp add: after_normal_high_eval)
  have "emit_event ''t'' None None NORMAL 0 (disable_event_manager after_normal_high)
     = (None, disable_event_manager after_normal_high, [])"
    using t1 by (simp add: disable_event_manager_def)
  moreover have "enable_event_manager (disable_event_manager after_normal_high)
                         = after_normal_high"
    using t2 en by simp
  moreover have "fst (emit_event ''t'' None None NORMAL 0 after_normal_high) = Some 2"
    using t2 en by (simp add: after_normal_high_eval)
  moreover have "invoked (snd (snd (emit_event ''t'' None None NORMAL 0 after_normal_high))) = [1, 0]"
    by (simp add: after_normal_high_eval emit_defs cb_plain_def)
  ultimately show ?thesis by simp
qed

section \<open>Properties of dragging\<close>

subsection \<open>Rounding to the grid\<close>

lemma frac_part:
  assumes "b \<noteq> 0"
  shows "(of_int a / of_int b :: real) - of_int (a div b) = of_int (a mod b) / of_int b"
proof -
  have "(of_int a :: real) = of_int (a div b) * of_int b + of_int (a mod b)"
    by (metis div_mult_mod_eq of_int_add of_int_mult)
  then show ?thesis using assms by (simp add: field_simps)
qed

lemma half_less:
  assumes "b \<noteq> 0"
  shows "((of_int (a mod b) / of_int b :: real) < 1 / 2) = (2 * \<bar>a mod b\<bar> < \<bar>b\<bar>)"
    and "((1 / 2 :: real) < of_int (a mod b) / of_int b) = (\<bar>b\<bar> < 2 * \<bar>a mod b\<bar>)"
proof -
  consider "0 < b" | "b < 0" using assms by linarith
  then show "((of_int (a mod b) / of_int b :: real) < 1 / 2) = (2 * \<bar>a mod b\<bar> < \<bar>b\<bar>)"
  proof cases
    case 1
    then have "0 \<le> a mod b" by simp
    have "((of_int (a mod b) / of_int b :: real) < 1 / 2) = ((of_int (2 * (a mod b)) :: real) < of_int b)"
      using 1 by (simp add: field_simps)
    also have "\<dots> = (2 * (a mod b) < b)" by (simp only: of_int_less_iff)
    finally show ?thesis using 1 \<open>0 \<le> a mod b\<close> by simp
  next
    case 2
    then have "a mod b \<le> 0" by simp
    have "((of_int (a mod b) / of_int b :: real) < 1 / 2) = ((of_int b :: real) < of_int (2 * (a mod b)))"
      using 2 by (simp add: field_simps)
    also have "\<dots> = (b < 2 * (a mod b))" by (simp only: of_int_less_iff)
    finally show ?thesis using 2 \<open>a mod b \<le> 0\<close> by simp
  qed
  consider "0 < b" | "b < 0" using assms by linarith
  then show "((1 / 2 :: real) < of_int (a mod b) / of_int b) = (\<bar>b\<bar> < 2 * \<bar>a mod b\<bar>)"
  proof cases
    case 1
    then have "0 \<le> a mod b" by simp
    have "((1 / 2 :: real) < of_int (a mod b) / of_int b) = ((of_int b :: real) < of_int (2 * (a mod b)))"
      using 1 by (simp add: field_simps)
    also have "\<dots> = (b < 2 * (a mod b))" by (simp only: of_int_less_iff)
    finally show ?thesis using 1 \<open>0 \<le> a mod b\<close> by simp
  next
    case 2
    then have "a mod b \<le> 0" by simp
    have "((1 / 2 :: real) < of_int (a mod b) / of_int b) = ((of_int (2 * (a mod b)) :: real) < of_int b)"
      using 2 by (simp add: field_simps)
    also have "\<dots> = (2 * (a mod b) < b)" by (simp only: of_int_less_iff)
    finally show ?thesis using 2 \<open>a mod b \<le> 0\<close> by simp
  qed
qed

lemma py_round_quotient:
  assumes "b \<noteq> 0"
  shows "py_round (of_int a / of_int b) = round_div a b"
proof -
  have f: "\<lfloor>(of_int a / of_int b :: real)\<rfloor> = a div b"
    by (rule floor_divide_of_int_eq)
  show ?thesis
    unfolding py_round_def Let_def f frac_part [OF assms] half_less [OF assms] round_div_def
    by simp
qed

lemma snap_position_eval:
  "snap_position g p =
     (if g = 0 then Inl ZeroDivisionError
      else Inr (round_div (fst p) g * g, round_div (snd p) g * g))"
  by (simp add: snap_position_def py_round_quotient)

lemma snap_position_on_grid:
  "snap_position g p = Inr q \<Longrightarrow> fst q mod g = 0 \<and> snd q mod g = 0"
  by (auto simp: snap_position_def split: if_splits)

lemmas widget_defs = mousePressEvent_def WidgetBase_mousePressEvent_def set_selected_def
  mouseMoveEvent_def mouseReleaseEvent_def is_valid_position_def rect_contains_def
  rect_isNull_def moveTopLeft_def rect_def width_def height_def move_def mapToParent_def
  point_add_def point_sub_def manhattanLength_def snap_position_eval round_div_def Let_def
  gesture_def btn1_def zone_rect_def press_at_def move_at_def release_at_def

subsection \<open>Press and moves\<close>

lemma press_fields:
  "pos (fst (mousePressEvent press w)) = pos w"
  "is_dragging (fst (mousePressEvent press w)) = is_dragging w"
  "is_draggable (fst (mousePressEvent press w)) = is_draggable w"
  "drag_threshold (fst (mousePressEvent press w)) = drag_threshold w"
  "snap_to_grid (fst (mousePressEvent press w)) = snap_to_grid w"
  "grid_size (fst (mousePressEvent press w)) = grid_size w"
  "geometry_size (fst (mousePressEvent press w)) = geometry_size w"
  "Drag_started \<notin> set (snd (mousePressEvent press w))"
  by (simp_all add: mousePressEvent_def WidgetBase_mousePressEvent_def set_selected_def)

lemma press_records:
  "button press = LeftButton \<Longrightarrow> is_draggable w \<Longrightarrow>
     drag_start_position (fst (mousePressEvent press w)) = event_pos press
     \<and> original_position (fst (mousePressEvent press w)) = pos w"
  by (simp add: mousePressEvent_def WidgetBase_mousePressEvent_def set_selected_def)

lemma move_below_threshold:
  "manhattanLength (point_sub (event_pos m) (drag_start_position w)) < drag_threshold w
   \<Longrightarrow> mouseMoveEvent m w = (w, [], None)"
  by (simp add: mouseMoveEvent_def Let_def)

lemma moves_below_threshold:
  "\<forall>m\<in>set moves. manhattanLength (point_sub (event_pos m) (drag_start_position w)) < drag_threshold w
   \<Longrightarrow> mouseMoves moves w = (w, [], [])"
  by (induction moves) (simp_all add: move_below_threshold)

text \<open>
  Claim C4. After a press with the left button on a draggable widget, a run of move
  samples each of which lies at a Manhattan distance from the press point below the
  widget's drag threshold (5 by default) leaves the widget as the press has left it and
  emits no signal and raises nothing: no \<^verbatim>\<open>drag_started\<close>, and the position is the one
  before the press.
\<close>

theorem below_threshold_no_drag:
  assumes "button press = LeftButton" and "is_draggable w"
    and "\<forall>m\<in>set moves.
           manhattanLength (point_sub (event_pos m) (event_pos press)) < drag_threshold w"
  shows "mouseMoves moves (fst (mousePressEvent press w)) = (fst (mousePressEvent press w), [], [])
       \<and> pos (fst (mousePressEvent press w)) = pos w
       \<and> is_dragging (fst (mousePressEvent press w)) = is_dragging w
       \<and> Drag_started \<notin> set (snd (mousePressEvent press w))"
proof -
  let ?w1 = "fst (mousePressEvent press w)"
  have "\<forall>m\<in>set moves.
          manhattanLength (point_sub (event_pos m) (drag_start_position ?w1)) < drag_threshold ?w1"
    using assms press_records [of press w] by (simp add: press_fields)
  then have "mouseMoves moves ?w1 = (?w1, [], [])"
    by (rule moves_below_threshold)
  then show ?thesis by (simp add: press_fields)
qed

theorem below_threshold_no_drag_witness:
  "mouseMoves [move_at (12, 11), move_at (11, 8)] (fst (mousePressEvent (press_at (10, 10)) btn1))
     = (fst (mousePressEvent (press_at (10, 10)) btn1), [], [])
   \<and> pos (fst (mousePressEvent (press_at (10, 10)) btn1)) = (100, 100)
   \<and> drag_threshold btn1 = 5"
proof -
  have "button (press_at (10, 10)) = LeftButton" and "is_draggable btn1"
    and "\<forall>m\<in>set [move_at (12, 11), move_at (11, 8)].
           manhattanLength (point_sub (event_pos m) (event_pos (press_at (10, 10))))
             < drag_threshold btn1"
    by (simp_all add: press_at_def move_at_def btn1_def manhattanLength_def point_sub_def)
  from below_threshold_no_drag [OF this]
  show ?thesis by (simp add: btn1_def)
qed

lemma move_keeps:
  "original_position (fst (mouseMoveEvent m w)) = original_position w"
  "is_draggable (fst (mouseMoveEvent m w)) = is_draggable w"
  "snap_to_grid (fst (mouseMoveEvent m w)) = snap_to_grid w"
  "grid_size (fst (mouseMoveEvent m w)) = grid_size w"
  "geometry_size (fst (mouseMoveEvent m w)) = geometry_size w"
  by (simp_all add: mouseMoveEvent_def Let_def move_def split: sum.splits)

lemma mouseMoves_Cons:
  "mouseMoves (m # ms) w =
     (fst (mouseMoves ms (fst (mouseMoveEvent m w))),
      fst (snd (mouseMoveEvent m w)) @ fst (snd (mouseMoves ms (fst (mouseMoveEvent m w)))),
      (case snd (snd (mouseMoveEvent m w)) of None \<Rightarrow> [] | Some e \<Rightarrow> [e])
        @ snd (snd (mouseMoves ms (fst (mouseMoveEvent m w)))))"
  by (simp split: prod.splits)

lemma moves_keep:
  "original_position (fst (mouseMoves ms w)) = original_position w
   \<and> is_draggable (fst (mouseMoves ms w)) = is_draggable w
   \<and> snap_to_grid (fst (mouseMoves ms w)) = snap_to_grid w
   \<and> grid_size (fst (mouseMoves ms w)) = grid_size w
   \<and> geometry_size (fst (mouseMoves ms w)) = geometry_size w"
proof (induction ms arbitrary: w)
  case Nil
  then show ?case by simp
next
  case (Cons m ms)
  show ?case
    unfolding mouseMoves_Cons using Cons.IH [of "fst (mouseMoveEvent m w)"]
    by (simp add: move_keeps)
qed





subsection \<open>Release\<close>

text \<open>
  Claim C6. A release of the left button ends an active drag that began with a press
  of the left button on a draggable widget. When the rectangle of the widget at its
  final position lies inside the rectangle of the parent, the position is kept and
  \<^verbatim>\<open>drag_finished\<close> is emitted with it. Otherwise the widget is moved back to the
  position it had at the press, and nothing is emitted. The call raises in neither
  case. (A widget without a parent is always kept where it is.)
\<close>

theorem release_commits_or_reverts:
  assumes "button press = LeftButton" and "is_draggable w0"
    and "w1 = fst (mousePressEvent press w0)"
    and "w2 = fst (mouseMoves moves w1)"
    and "is_dragging w2" and "button release = LeftButton"
  shows "mouseReleaseEvent (Some prect) release w2 =
           (if rect_contains prect (moveTopLeft (pos w2) (rect w2))
            then (w2\<lparr>is_dragging := False\<rparr>, [Drag_finished (pos w2)])
            else (w2\<lparr>is_dragging := False, pos := pos w0\<rparr>, []))
       \<and> mouseReleaseEvent None release w2 = (w2\<lparr>is_dragging := False\<rparr>, [Drag_finished (pos w2)])"
proof -
  have "original_position w2 = pos w0"
    using assms moves_keep [of moves w1] press_records [of press w0] by simp
  moreover have "rect (w2\<lparr>is_dragging := False\<rparr>) = rect w2"
    by (simp add: rect_def width_def height_def)
  ultimately show ?thesis
    using assms(5,6)
    by (simp add: mouseReleaseEvent_def Let_def is_valid_position_def move_def)
qed

text \<open>
  The button dragged from (100, 100) by (17, -3) stays at (120, 100), inside the zone;
  dragged by (-200, 0) it would lie outside and goes back to (100, 100) in silence.
\<close>

theorem release_commits_or_reverts_witness:
  "snd (mouseReleaseEvent (Some zone_rect) (release_at (27, 7))
          (fst (mouseMoves [move_at (27, 7)] (fst (mousePressEvent (press_at (10, 10)) btn1)))))
     = [Drag_finished (120, 100)]
   \<and> pos (fst (mouseReleaseEvent (Some zone_rect) (release_at (27, 7))
          (fst (mouseMoves [move_at (27, 7)] (fst (mousePressEvent (press_at (10, 10)) btn1))))))
     = (120, 100)
   \<and> snd (mouseReleaseEvent (Some zone_rect) (release_at (-190, 10))
          (fst (mouseMoves [move_at (-190, 10)] (fst (mousePressEvent (press_at (10, 10)) btn1)))))
     = []
   \<and> pos (fst (mouseReleaseEvent (Some zone_rect) (release_at (-190, 10))
          (fst (mouseMoves [move_at (-190, 10)] (fst (mousePressEvent (press_at (10, 10)) btn1))))))
     = (100, 100)"
proof -
  have p: "button (press_at (10, 10)) = LeftButton" and d: "is_draggable btn1"
    by (simp_all add: press_at_def btn1_def)
  have a1: "is_dragging (fst (mouseMoves [move_at (27, 7)]
                                (fst (mousePressEvent (press_at (10, 10)) btn1))))"
    and a2: "is_dragging (fst (mouseMoves [move_at (-190, 10)]
                                (fst (mousePressEvent (press_at (10, 10)) btn1))))"
    by (simp_all add: widget_defs)
  have r1: "button (release_at (27, 7)) = LeftButton"
    and r2: "button (release_at (-190, 10)) = LeftButton"
    by (simp_all add: release_at_def)
  note kept = release_commits_or_reverts [OF p d refl refl a1 r1, of zone_rect]
  note reverted = release_commits_or_reverts [OF p d refl refl a2 r2, of zone_rect]
  have "snd (mouseReleaseEvent (Some zone_rect) (release_at (27, 7))
          (fst (mouseMoves [move_at (27, 7)] (fst (mousePressEvent (press_at (10, 10)) btn1)))))
     = [Drag_finished (120, 100)]
   \<and> pos (fst (mouseReleaseEvent (Some zone_rect) (release_at (27, 7))
          (fst (mouseMoves [move_at (27, 7)] (fst (mousePressEvent (press_at (10, 10)) btn1))))))
     = (120, 100)"
    unfolding conjunct1 [OF kept] by (simp add: widget_defs)
  moreover have "snd (mouseReleaseEvent (Some zone_rect) (release_at (-190, 10))
          (fst (mouseMoves [move_at (-190, 10)] (fst (mousePressEvent (press_at (10, 10)) btn1)))))
     = []
   \<and> pos (fst (mouseReleaseEvent (Some zone_rect) (release_at (-190, 10))
          (fst (mouseMoves [move_at (-190, 10)] (fst (mousePressEvent (press_at (10, 10)) btn1))))))
     = (100, 100)"
    unfolding conjunct1 [OF reverted] by (simp add: widget_defs)
  ultimately show ?thesis by simp
qed

subsection \<open>Snapping\<close>




section \<open>Properties of the drop zone\<close>

text \<open>
  Claim C7 as it is written fails in the offset: the first widget added to an empty
  zone (count 0 at the call) is placed at (50, 30), not at (0, 0).
\<close>

theorem add_widget_offset_counterexample:
  "length (widgets (fst empty_zone)) = 0
   \<and> pos (snd (fst (add_widget 1 None empty_zone)) 1) = (50, 30)
   \<and> pos (snd (fst (add_widget 1 None empty_zone)) 1) \<noteq> (0 * 50, 0 * 30)"
  by (simp add: empty_zone_def DropZone_init_def add_widget_def position_given_def move_def
      Let_def)

text \<open>
  Claim C7, amended. Adding a widget that is already in the list of the zone changes
  nothing and emits nothing. Adding a new widget without a position appends it to the
  list, makes the zone its parent, places it at \<open>((n + 1) * 50, (n + 1) * 30)\<close> where \<open>n\<close>
  is the number of widgets at the call (the code reads the length of the list after
  the insertion), shows it and emits \<^verbatim>\<open>layout_changed\<close>.
\<close>

theorem add_widget_placement:
  "(widget \<in> set (widgets z) \<longrightarrow> add_widget widget position (z, h) = ((z, h), []))
   \<and> (widget \<notin> set (widgets z) \<longrightarrow>
        add_widget widget None (z, h) =
          ((z\<lparr>widgets := widgets z @ [widget]\<rparr>,
            h(widget := (h widget)
                \<lparr>parent := Some (zone_ref z),
                 pos := ((int (length (widgets z)) + 1) * 50,
                         (int (length (widgets z)) + 1) * 30),
                 visible := True\<rparr>)),
           [Layout_changed]))"
  by (simp add: add_widget_def position_given_def move_def Let_def algebra_simps)

text \<open>
  In a zone that holds the widget 1, the widget 2 is placed at (100, 60), and adding
  the widget 1 again does nothing.
\<close>

theorem add_widget_placement_witness:
  "widgets (fst zone_with_one) = [1]
   \<and> add_widget 1 (Some (7, 7)) zone_with_one = (zone_with_one, [])
   \<and> widgets (fst (fst (add_widget 2 None zone_with_one))) = [1, 2]
   \<and> pos (snd (fst (add_widget 2 None zone_with_one)) 2) = (100, 60)
   \<and> snd (add_widget 2 None zone_with_one) = [Layout_changed]"
proof -
  have w: "widgets (fst zone_with_one) = [1]"
    by (simp add: zone_with_one_def empty_zone_def DropZone_init_def add_widget_def Let_def)
  have z: "zone_with_one = (fst zone_with_one, snd zone_with_one)" by simp
  have i1: "(1::nat) \<in> set (widgets (fst zone_with_one))"
    and i2: "(2::nat) \<notin> set (widgets (fst zone_with_one))"
    using w by simp_all
  note t1 = add_widget_placement [of 1 "fst zone_with_one" "Some (7, 7)" "snd zone_with_one"]
  note t2 = add_widget_placement [of 2 "fst zone_with_one" None "snd zone_with_one"]
  have "add_widget 1 (Some (7, 7)) zone_with_one = (zone_with_one, [])"
    using t1 i1 by simp
  moreover have "add_widget 2 None zone_with_one =
          (((fst zone_with_one)\<lparr>widgets := widgets (fst zone_with_one) @ [2]\<rparr>,
            (snd zone_with_one)(2 := (snd zone_with_one 2)
                \<lparr>parent := Some (zone_ref (fst zone_with_one)),
                 pos := ((int (length (widgets (fst zone_with_one))) + 1) * 50,
                         (int (length (widgets (fst zone_with_one))) + 1) * 30),
                 visible := True\<rparr>)),
           [Layout_changed])"
    using t2 i2 by simp
  ultimately show ?thesis using w by simp
qed

text \<open>
  Claim C9. Showing or hiding the grid and assigning a grid size change one
  configuration field of the zone and nothing else: the list of widgets, the selection
  and every widget object (hence every position and size) are as before. The same holds
  for the grid setting of a single widget, \<^verbatim>\<open>set_snap_to_grid\<close>.
\<close>

theorem grid_config_frame:
  "set_grid_visible vis (z, h) = (z\<lparr>show_grid := vis\<rparr>, h)
   \<and> assign_grid_size g (z, h) = (z\<lparr>zone_grid_size := g\<rparr>, h)
   \<and> widgets (fst (set_grid_visible vis (z, h))) = widgets z
   \<and> widgets (fst (assign_grid_size g (z, h))) = widgets z
   \<and> (\<forall>r. pos (snd (set_grid_visible vis (z, h)) r) = pos (h r)
          \<and> geometry_size (snd (set_grid_visible vis (z, h)) r) = geometry_size (h r)
          \<and> pos (snd (assign_grid_size g (z, h)) r) = pos (h r)
          \<and> geometry_size (snd (assign_grid_size g (z, h)) r) = geometry_size (h r))
   \<and> pos (set_snap_to_grid enable g w) = pos w
   \<and> geometry_size (set_snap_to_grid enable g w) = geometry_size w"
  by (simp add: set_grid_visible_def assign_grid_size_def set_snap_to_grid_def)

section \<open>Properties of the layout manager\<close>


subsection \<open>The positioning loop\<close>

lemma length_currents [simp]: "length (currents fl sp c wl) = length wl"
  by (induction wl arbitrary: c) auto

lemma length_exacts [simp]: "length (exacts s e wl) = length wl"
  by (induction wl arbitrary: e) auto

lemma place_width [simp]: "width (place r p h q) = width (h q)"
  by (simp add: place_def move_def animate_to_position_def width_def)

lemma place_size [simp]: "geometry_size (place r p h q) = geometry_size (h q)"
  by (simp add: place_def move_def animate_to_position_def)

lemma place_class [simp]: "is_DraggableWidget (place r p h q) = is_DraggableWidget (h q)"
  by (simp add: place_def move_def animate_to_position_def)

lemma place_other [simp]: "q \<noteq> r \<Longrightarrow> place r p h q = h q"
  by (simp add: place_def)

lemma place_y [simp]: "snd (pos (place r (x, snd (pos (h r))) h q)) = snd (pos (h q))"
  by (simp add: place_def move_def animate_to_position_def)

lemma place_animated [simp]: "is_DraggableWidget (h q) \<Longrightarrow> pos (place r p h q) = pos (h q)"
  by (auto simp: place_def move_def animate_to_position_def)





subsection \<open>Rounding errors\<close>










lemma py_int_of_int [simp]: "py_int (of_int z) = z"
  by (simp add: py_int_def)



subsection \<open>Distribution\<close>



subsection \<open>The scenarios evaluated\<close>











subsection \<open>The claim\<close>




end
